theory Spec2Isabelle
  imports Complex_Main
begin

section \<open>Python values\<close>

text \<open>
  The client keeps and compares whatever the backend's JSON holds, so the model works on
  decoded JSON values. \<open>JNull\<close> is Python's \<open>None\<close>; a number is a rational
  (every finite Python \<open>int\<close> and \<open>float\<close> is one, and \<open>==\<close> and \<open>>\<close> on them agree with
  Python's; the non-finite floats are not modelled); an object is an association list read
  with \<open>map_of\<close>.
\<close>

datatype json =
    JNull
  | JBool bool
  | JNum rat
  | JStr string
  | JArr "json list"
  | JObj "(string \<times> json) list"

text \<open>Truth value of a Python object, as \<open>if not x\<close> tests it.\<close>

fun truthy :: "json \<Rightarrow> bool" where
  "truthy JNull = False"
| "truthy (JBool b) = b"
| "truthy (JNum r) = (r \<noteq> 0)"
| "truthy (JStr s) = (s \<noteq> [])"
| "truthy (JArr xs) = (xs \<noteq> [])"
| "truthy (JObj kv) = (kv \<noteq> [])"

text \<open>\<open>x[:20]\<close> works on strings and lists and raises TypeError on everything else.\<close>

fun sliceable :: "json \<Rightarrow> bool" where
  "sliceable (JStr s) = True"
| "sliceable (JArr xs) = True"
| "sliceable v = False"

text \<open>\<open>d.get(k, default)\<close> on a dict.\<close>

definition dict_get :: "(string \<times> json) list \<Rightarrow> string \<Rightarrow> json \<Rightarrow> json" where
  "dict_get kv k dflt = (case map_of kv k of None \<Rightarrow> dflt | Some v \<Rightarrow> v)"

text \<open>\<open>x.get(k, default)\<close> on any value: only a dict has \<open>get\<close>; \<open>None\<close> stands for
  the AttributeError of the others.\<close>

fun attr_get :: "json \<Rightarrow> string \<Rightarrow> json \<Rightarrow> json option" where
  "attr_get (JObj kv) k dflt = Some (dict_get kv k dflt)"
| "attr_get v k dflt = None"

text \<open>The numeric value of an object in a comparison with a number: \<open>True\<close> is 1 and
  \<open>False\<close> is 0; nothing else is a number.\<close>

fun py_number :: "json \<Rightarrow> rat option" where
  "py_number (JNum r) = Some r"
| "py_number (JBool b) = Some (if b then 1 else 0)"
| "py_number v = None"

text \<open>\<open>v == t\<close> for a float \<open>t\<close>.\<close>

definition py_eq_float :: "json \<Rightarrow> rat \<Rightarrow> bool" where
  "py_eq_float v t = (py_number v = Some t)"

text \<open>\<open>v > 0\<close>; \<open>None\<close> stands for the TypeError of a non-number.\<close>

definition py_gt_zero :: "json \<Rightarrow> bool option" where
  "py_gt_zero v = (case py_number v of None \<Rightarrow> None | Some r \<Rightarrow> Some (0 < r))"

text \<open>Dict keys: lists and dicts are unhashable; \<open>True\<close> and \<open>1\<close> are the same key.\<close>

fun hashable :: "json \<Rightarrow> bool" where
  "hashable (JArr xs) = False"
| "hashable (JObj kv) = False"
| "hashable v = True"

fun key_norm :: "json \<Rightarrow> json" where
  "key_norm (JBool b) = JNum (if b then 1 else 0)"
| "key_norm v = v"

text \<open>\<open>d[k] = v\<close> on an insertion-ordered dict: an existing key keeps its place (and its
  first key object), a new key goes last.\<close>

fun dict_set :: "(json \<times> 'v) list \<Rightarrow> json \<Rightarrow> 'v \<Rightarrow> (json \<times> 'v) list" where
  "dict_set [] k v = [(k, v)]"
| "dict_set ((k', v') # rest) k v =
     (if key_norm k' = key_norm k then (k', v) # rest else (k', v') # dict_set rest k v)"

text \<open>The items a \<open>for\<close> loop draws from a value: the elements of a list, the keys of a
  dict, the characters of a string; \<open>None\<close> stands for the TypeError of the rest.\<close>

fun iter_items :: "json \<Rightarrow> json list option" where
  "iter_items (JArr xs) = Some xs"
| "iter_items (JObj kv) = Some (map (\<lambda>p. JStr (fst p)) kv)"
| "iter_items (JStr s) = Some (map (\<lambda>c. JStr [c]) s)"
| "iter_items v = None"

section \<open>The network\<close>

text \<open>
  The HTTP library is outside the repository. The backend is a script: the replies it
  will give, in order; each request takes the next one and is recorded in \<open>sent\<close>. With
  the script used up, a request gets no answer (a connection error).
\<close>

datatype reply =
    ConnError
  | Http nat "json option"

datatype request =
    PostLogin json
  | PostConnect json
  | GetDevices json json
  | GetStatus json json
  | PutAttribute json json string json

record network =
  pending :: "reply list"
  sent :: "request list"

definition send :: "request \<Rightarrow> network \<Rightarrow> reply \<times> network" where
  "send rq n =
     (case pending n of
        [] \<Rightarrow> (ConnError, n\<lparr>sent := sent n @ [rq]\<rparr>)
      | r # rs \<Rightarrow> (r, n\<lparr>pending := rs, sent := sent n @ [rq]\<rparr>))"

text \<open>\<open>response.raise_for_status()\<close> raises from status 400 on.\<close>

fun raise_for_status :: "reply \<Rightarrow> bool" where
  "raise_for_status ConnError = True"
| "raise_for_status (Http st body) = (400 \<le> st)"

text \<open>\<open>response.raise_for_status(); data = await response.json()\<close>: \<open>None\<close> when either
  raises (no answer, an error status, a body that is not JSON).\<close>

definition response_json :: "reply \<Rightarrow> json option" where
  "response_json r =
     (case r of
        ConnError \<Rightarrow> None
      | Http st body \<Rightarrow> if raise_for_status r then None else body)"

section \<open>api.py: SchluterAPI\<close>

datatype failure = Authentication_failed | Connection_failed | Error_communicating

datatype error =
    SchluterAuthenticationError
  | SchluterAPIError
  | ValueError
  | KeyError
  | TypeError
  | UpdateFailed failure

record schluter_api =
  session_id :: json
  refresh_token :: json
  access_token :: json
  user_id :: json
  account_id :: json
  net :: network

definition init_api :: "network \<Rightarrow> schluter_api" where
  "init_api n = \<lparr>session_id = JNull, refresh_token = JNull, access_token = JNull,
     user_id = JNull, account_id = JNull, net = n\<rparr>"

text \<open>The name of a snapshot: \<open>f"Device {device_id}"\<close>, kept symbolic, or the name the
  device list gave.\<close>

datatype label = Device_label json | Given json

record thermostat =
  device_id :: json
  name :: label
  current_temp :: json
  target_temp :: json
  min_temp :: json
  max_temp :: json
  setpoint_mode :: json
  occupancy_mode :: json
  heating :: bool
  heating_percent :: json
  air_floor_mode :: json
  gfci_status :: json
  floor_setpoint_pwm :: json
  temp_display_status :: json

subsection \<open>login\<close>

text \<open>
  The statements of \<open>login\<close> after the body was decoded, each assignment in the source's
  order; the flag is False when a statement raised (whatever it raised, the handler turns
  it into SchluterAuthenticationError), and the state keeps what was assigned before.
\<close>

definition login_account :: "(string \<times> json) list \<Rightarrow> json \<Rightarrow> schluter_api \<Rightarrow> bool \<times> schluter_api" where
  "login_account kv user a =
     (case user of
        JObj ukv \<Rightarrow>
          (let a1 = a\<lparr>user_id := dict_get ukv ''id'' JNull\<rparr>;
               first = dict_get ukv ''account$id'' JNull
           in if truthy first then (True, a1\<lparr>account_id := first\<rparr>)
              else (case attr_get (dict_get kv ''account'' (JObj [])) ''id'' JNull of
                      None \<Rightarrow> (False, a1)
                    | Some v \<Rightarrow> (True, a1\<lparr>account_id := v\<rparr>)))
      | _ \<Rightarrow> (False, a))"

definition login_store :: "json \<Rightarrow> json \<Rightarrow> schluter_api \<Rightarrow> bool \<times> schluter_api" where
  "login_store tok data a =
     (let a1 = a\<lparr>refresh_token := tok\<rparr> in
      case data of
        JObj kv \<Rightarrow>
          (let a2 = a1\<lparr>access_token := dict_get kv ''access_token'' JNull\<rparr> in
           case map_of kv ''session'' of
             None \<Rightarrow>
               (case map_of kv ''user'' of
                  None \<Rightarrow> (True, a2)
                | Some user \<Rightarrow> login_account kv user a2)
           | Some s \<Rightarrow>
               (let a3 = a2\<lparr>session_id := s\<rparr> in
                if \<not> sliceable s then (False, a3)
                else (case map_of kv ''user'' of
                        None \<Rightarrow> (True, a3)
                      | Some user \<Rightarrow> login_account kv user a3)))
      | _ \<Rightarrow> (False, a1))"

definition login :: "json \<Rightarrow> schluter_api \<Rightarrow> (error + json) \<times> schluter_api" where
  "login tok a =
     (case send (PostLogin tok) (net a) of
        (r, n) \<Rightarrow>
          (case response_json r of
             None \<Rightarrow> (Inl SchluterAuthenticationError, a\<lparr>net := n\<rparr>)
           | Some data \<Rightarrow>
               (case login_store tok data (a\<lparr>net := n\<rparr>) of
                  (True, a') \<Rightarrow> (Inr data, a')
                | (False, a') \<Rightarrow> (Inl SchluterAuthenticationError, a'))))"

subsection \<open>connect\<close>

text \<open>The \<open>if\<close>/\<open>elif\<close> chain over the three keys; \<open>session_id\<close> starts as \<open>None\<close>.\<close>

definition connect_session :: "(string \<times> json) list \<Rightarrow> json" where
  "connect_session kv =
     (case map_of kv ''session'' of
        Some v \<Rightarrow> v
      | None \<Rightarrow>
          (case map_of kv ''sessionId'' of
             Some v \<Rightarrow> v
           | None \<Rightarrow>
               (case map_of kv ''session_id'' of
                  Some v \<Rightarrow> v
                | None \<Rightarrow> JNull)))"

definition connect :: "schluter_api \<Rightarrow> (error + json) \<times> schluter_api" where
  "connect a =
     (if \<not> truthy (refresh_token a) then (Inl SchluterAuthenticationError, a)
      else
        (case send (PostConnect (refresh_token a)) (net a) of
           (r, n) \<Rightarrow>
             (case response_json r of
                Some (JObj kv) \<Rightarrow>
                  (let s = connect_session kv in
                   if \<not> truthy s then (Inl SchluterAuthenticationError, a\<lparr>net := n\<rparr>)
                   else if \<not> sliceable s
                     then (Inl SchluterAuthenticationError, a\<lparr>net := n, session_id := s\<rparr>)
                   else (Inr s, a\<lparr>net := n, session_id := s\<rparr>))
              | _ \<Rightarrow> (Inl SchluterAuthenticationError, a\<lparr>net := n\<rparr>))))"

subsection \<open>get_devices\<close>

definition get_devices :: "json \<Rightarrow> schluter_api \<Rightarrow> (error + json) \<times> schluter_api" where
  "get_devices location a =
     (if \<not> truthy (session_id a) then (Inl SchluterAuthenticationError, a)
      else
        (case send (GetDevices (session_id a) location) (net a) of
           (r, n) \<Rightarrow>
             (case response_json r of
                Some (JObj kv) \<Rightarrow> (Inr (dict_get kv ''devices'' (JArr [])), a\<lparr>net := n\<rparr>)
              | _ \<Rightarrow> (Inl SchluterAPIError, a\<lparr>net := n\<rparr>))))"

subsection \<open>get_thermostat_status\<close>

text \<open>The construction of the snapshot from the decoded body; \<open>None\<close> when an argument
  raises (a body or a display field that is not a dict, a percent that is not a number).\<close>

definition parse_thermostat :: "json \<Rightarrow> json \<Rightarrow> thermostat option" where
  "parse_thermostat dev data =
     (case data of
        JObj kv \<Rightarrow>
          (case attr_get (dict_get kv ''roomTemperatureDisplay'' (JObj [])) ''value'' JNull of
             None \<Rightarrow> None
           | Some cur \<Rightarrow>
               (case attr_get (dict_get kv ''outputPercentDisplay'' (JObj [])) ''percent'' (JNum 0) of
                  None \<Rightarrow> None
                | Some pct \<Rightarrow>
                    (case py_gt_zero pct of
                       None \<Rightarrow> None
                     | Some h \<Rightarrow>
                         (case attr_get (dict_get kv ''roomTemperatureDisplay'' (JObj [])) ''status'' JNull of
                            None \<Rightarrow> None
                          | Some tds \<Rightarrow>
                              Some \<lparr>device_id = dev,
                                    name = Device_label dev,
                                    current_temp = cur,
                                    target_temp = dict_get kv ''roomSetpoint'' JNull,
                                    min_temp = dict_get kv ''roomSetpointMin'' (JNum 5),
                                    max_temp = dict_get kv ''roomSetpointMax'' (JNum 33),
                                    setpoint_mode = dict_get kv ''setpointMode'' JNull,
                                    occupancy_mode = dict_get kv ''occupancyMode'' JNull,
                                    heating = h,
                                    heating_percent = pct,
                                    air_floor_mode = dict_get kv ''airFloorMode'' JNull,
                                    gfci_status = dict_get kv ''gfciStatus'' JNull,
                                    floor_setpoint_pwm = dict_get kv ''floorSetpointPwm'' JNull,
                                    temp_display_status = tds\<rparr>))))
      | _ \<Rightarrow> None)"

definition get_thermostat_status :: "json \<Rightarrow> schluter_api \<Rightarrow> (error + thermostat) \<times> schluter_api" where
  "get_thermostat_status dev a =
     (if \<not> truthy (session_id a) then (Inl SchluterAuthenticationError, a)
      else
        (case send (GetStatus (session_id a) dev) (net a) of
           (r, n) \<Rightarrow>
             (case Option.bind (response_json r) (parse_thermostat dev) of
                None \<Rightarrow> (Inl SchluterAPIError, a\<lparr>net := n\<rparr>)
              | Some t \<Rightarrow> (Inr t, a\<lparr>net := n\<rparr>))))"

subsection \<open>set_temperature, set_mode, set_occupancy_mode\<close>

definition set_temperature :: "json \<Rightarrow> rat \<Rightarrow> schluter_api \<Rightarrow> (error + bool) \<times> schluter_api" where
  "set_temperature dev temperature a =
     (if \<not> truthy (session_id a) then (Inl SchluterAuthenticationError, a)
      else
        (case send (PutAttribute (session_id a) dev ''roomSetpoint'' (JNum temperature)) (net a) of
           (r, n) \<Rightarrow>
             (case response_json r of
                Some (JObj kv) \<Rightarrow>
                  (Inr (py_eq_float (dict_get kv ''roomSetpoint'' JNull) temperature), a\<lparr>net := n\<rparr>)
              | _ \<Rightarrow> (Inl SchluterAPIError, a\<lparr>net := n\<rparr>))))"

definition set_mode :: "json \<Rightarrow> string \<Rightarrow> schluter_api \<Rightarrow> (error + bool) \<times> schluter_api" where
  "set_mode dev mode a =
     (if mode \<notin> set [''manual'', ''schedule''] then (Inl ValueError, a)
      else if \<not> truthy (session_id a) then (Inl SchluterAuthenticationError, a)
      else
        (case send (PutAttribute (session_id a) dev ''setpointMode'' (JStr mode)) (net a) of
           (r, n) \<Rightarrow>
             if raise_for_status r then (Inl SchluterAPIError, a\<lparr>net := n\<rparr>)
             else (Inr True, a\<lparr>net := n\<rparr>)))"

definition set_occupancy_mode :: "json \<Rightarrow> string \<Rightarrow> schluter_api \<Rightarrow> (error + bool) \<times> schluter_api" where
  "set_occupancy_mode dev occupancy a =
     (if occupancy \<notin> set [''home'', ''away''] then (Inl ValueError, a)
      else if \<not> truthy (session_id a) then (Inl SchluterAuthenticationError, a)
      else
        (case send (PutAttribute (session_id a) dev ''occupancyMode'' (JStr occupancy)) (net a) of
           (r, n) \<Rightarrow>
             if raise_for_status r then (Inl SchluterAPIError, a\<lparr>net := n\<rparr>)
             else (Inr True, a\<lparr>net := n\<rparr>)))"

subsection \<open>logout\<close>

definition logout :: "schluter_api \<Rightarrow> bool \<times> schluter_api" where
  "logout a =
     (if \<not> truthy (session_id a) then (True, a)
      else (True, a\<lparr>session_id := JNull, access_token := JNull\<rparr>))"

section \<open>__init__.py: SchluterDataUpdateCoordinator\<close>

text \<open>
  \<open>self.devices\<close> and the poll result are insertion-ordered dicts. A device entry is stored
  only after \<open>device["id"]\<close> succeeded on it, so every stored value is a dict.
  \<open>entry_data\<close> is \<open>config_entry.data\<close>; \<open>reauth_flows\<close> counts the reauth flows started.
\<close>

type_synonym device_dict = "(json \<times> (string \<times> json) list) list"
type_synonym poll = "(json \<times> thermostat) list"

record coordinator =
  api :: schluter_api
  location_id :: json
  devices :: device_dict
  entry_data :: "(string \<times> json) list"
  reauth_flows :: nat

text \<open>\<open>for device in device_list: self.devices[device["id"]] = device\<close>, stopping at the
  first entry that raises, with the earlier entries stored.\<close>

fun store_devices :: "json list \<Rightarrow> device_dict \<Rightarrow> error option \<times> device_dict" where
  "store_devices [] ds = (None, ds)"
| "store_devices (d # rest) ds =
     (case d of
        JObj kv \<Rightarrow>
          (case map_of kv ''id'' of
             None \<Rightarrow> (Some KeyError, ds)
           | Some k \<Rightarrow>
               if hashable k then store_devices rest (dict_set ds k kv)
               else (Some TypeError, ds))
      | _ \<Rightarrow> (Some TypeError, ds))"

definition discover :: "coordinator \<Rightarrow> error option \<times> coordinator" where
  "discover c =
     (if devices c \<noteq> [] then (None, c)
      else
        (case get_devices (location_id c) (api c) of
           (Inl e, a) \<Rightarrow> (Some e, c\<lparr>api := a\<rparr>)
         | (Inr device_list, a) \<Rightarrow>
             (case iter_items device_list of
                None \<Rightarrow> (Some TypeError, c\<lparr>api := a\<rparr>)
              | Some items \<Rightarrow>
                  (case store_devices items (devices c) of
                     (e, ds) \<Rightarrow> (e, c\<lparr>api := a, devices := ds\<rparr>)))))"

definition device_name :: "json \<Rightarrow> (string \<times> json) list \<Rightarrow> label" where
  "device_name dev kv = (case map_of kv ''name'' of None \<Rightarrow> Device_label dev | Some v \<Rightarrow> Given v)"

text \<open>The loop over \<open>self.devices\<close>: a SchluterAPIError skips the device, any other
  exception leaves the loop.\<close>

fun fetch_all :: "device_dict \<Rightarrow> schluter_api \<Rightarrow> poll \<Rightarrow> (error + poll) \<times> schluter_api" where
  "fetch_all [] a data = (Inr data, a)"
| "fetch_all ((dev, kv) # rest) a data =
     (case get_thermostat_status dev a of
        (Inr status, a') \<Rightarrow>
          fetch_all rest a' (dict_set data dev (status\<lparr>name := device_name dev kv\<rparr>))
      | (Inl e, a') \<Rightarrow>
          if e = SchluterAPIError then fetch_all rest a' data else (Inl e, a'))"

text \<open>The body of the outer \<open>try\<close>.\<close>

definition update_body :: "coordinator \<Rightarrow> (error + poll) \<times> coordinator" where
  "update_body c =
     (case discover c of
        (Some e, c1) \<Rightarrow> (Inl e, c1)
      | (None, c1) \<Rightarrow>
          (case fetch_all (devices c1) (api c1) [] of
             (r, a) \<Rightarrow> (r, c1\<lparr>api := a\<rparr>)))"

text \<open>The handlers of the inner \<open>try\<close>: SchluterAuthenticationError starts the reauth
  flow; any other exception is a connection failure.\<close>

definition relogin_failed :: "error \<Rightarrow> coordinator \<Rightarrow> (error + poll) \<times> coordinator" where
  "relogin_failed e c =
     (if e = SchluterAuthenticationError
      then (Inl (UpdateFailed Authentication_failed), c\<lparr>reauth_flows := Suc (reauth_flows c)\<rparr>)
      else (Inl (UpdateFailed Connection_failed), c))"

text \<open>
  The retry is the source's recursive call. Each one follows a login that the backend
  answered, so the script gets shorter and the recursion ends. (The interpreter's own
  recursion limit is not modelled.)
\<close>

lemma send_pending: "send rq n = (r, n') \<Longrightarrow> length (pending n') \<le> length (pending n)"
  by (auto simp: send_def split: list.splits)

lemma send_pending_answer:
  "send rq n = (r, n') \<Longrightarrow> r \<noteq> ConnError \<Longrightarrow> length (pending n') < length (pending n)"
  by (auto simp: send_def split: list.splits)

lemma login_account_net: "login_account kv user a = (b, a') \<Longrightarrow> net a' = net a"
  by (auto simp: login_account_def Let_def split: json.splits option.splits if_splits)

lemma login_store_net: "login_store tok data a = (b, a') \<Longrightarrow> net a' = net a"
  by (auto simp: login_store_def Let_def split: json.splits option.splits if_splits
      dest!: login_account_net)

lemma login_pending:
  assumes "login tok a = (Inr d, a')"
  shows "length (pending (net a')) < length (pending (net a))"
proof -
  obtain r n where s: "send (PostLogin tok) (net a) = (r, n)" by force
  from assms s obtain data where d: "response_json r = Some data"
    by (auto simp: login_def split: option.splits)
  then have "r \<noteq> ConnError" by (auto simp: response_json_def)
  with s have less: "length (pending n) < length (pending (net a))"
    by (rule send_pending_answer)
  from assms s d obtain b where "login_store tok data (a\<lparr>net := n\<rparr>) = (b, a')"
    by (auto simp: login_def split: prod.splits bool.splits)
  then have "net a' = n" by (auto dest: login_store_net)
  with less show ?thesis by simp
qed

lemma get_devices_pending:
  "get_devices loc a = (r, a') \<Longrightarrow> length (pending (net a')) \<le> length (pending (net a))"
  by (auto simp: get_devices_def split: if_splits prod.splits option.splits json.splits
      dest: send_pending)

lemma get_thermostat_status_pending:
  "get_thermostat_status dev a = (r, a') \<Longrightarrow> length (pending (net a')) \<le> length (pending (net a))"
  by (auto simp: get_thermostat_status_def split: if_splits prod.splits option.splits
      dest: send_pending)

lemma fetch_all_pending:
  "fetch_all ds a data = (r, a') \<Longrightarrow> length (pending (net a')) \<le> length (pending (net a))"
proof (induction ds arbitrary: a data)
  case Nil
  then show ?case by simp
next
  case (Cons p rest)
  obtain dev kv where p: "p = (dev, kv)" by (cases p)
  obtain x a1 where g: "get_thermostat_status dev a = (x, a1)" by force
  then have le: "length (pending (net a1)) \<le> length (pending (net a))"
    by (rule get_thermostat_status_pending)
  from Cons.prems p g obtain data' where "fetch_all rest a1 data' = (r, a') \<or> a' = a1"
    by (auto split: sum.splits if_splits)
  then have "length (pending (net a')) \<le> length (pending (net a1))"
    using Cons.IH by auto
  with le show ?case by simp
qed

lemma discover_pending:
  "discover c = (r, c') \<Longrightarrow> length (pending (net (api c'))) \<le> length (pending (net (api c)))"
  by (auto simp: discover_def split: if_splits prod.splits sum.splits option.splits
      dest: get_devices_pending)

lemma update_body_pending:
  "update_body c = (r, c') \<Longrightarrow> length (pending (net (api c'))) \<le> length (pending (net (api c)))"
  by (auto simp: update_body_def split: prod.splits option.splits
      dest!: discover_pending fetch_all_pending)

function async_update_data :: "coordinator \<Rightarrow> (error + poll) \<times> coordinator" where
  "async_update_data c =
     (case update_body c of
        (Inr data, c1) \<Rightarrow> (Inr data, c1)
      | (Inl e, c1) \<Rightarrow>
          if e = SchluterAuthenticationError then
            (case map_of (entry_data c1) ''refresh_token'' of
               None \<Rightarrow> relogin_failed KeyError c1
             | Some tok \<Rightarrow>
                 (case login tok (api c1) of
                    (Inl e2, a2) \<Rightarrow> relogin_failed e2 (c1\<lparr>api := a2\<rparr>)
                  | (Inr r, a2) \<Rightarrow>
                      (case async_update_data (c1\<lparr>api := a2\<rparr>) of
                         (Inr data, c3) \<Rightarrow> (Inr data, c3)
                       | (Inl e3, c3) \<Rightarrow> relogin_failed e3 c3)))
          else (Inl (UpdateFailed Error_communicating), c1))"
  by pat_completeness auto
termination
proof (relation "measure (\<lambda>c. length (pending (net (api c))))")
  show "wf (measure (\<lambda>c. length (pending (net (api c)))))" by simp
next
  fix c :: coordinator and x c1 e tok y a2 r
  assume "(x, c1) = update_body c" and "(y, a2) = login tok (api c1)" and "y = Inr r"
  then have "length (pending (net (api c1))) \<le> length (pending (net (api c)))"
    and "length (pending (net a2)) < length (pending (net (api c1)))"
    by (auto dest: update_body_pending [OF sym] login_pending [OF sym])
  then show "(c1\<lparr>api := a2\<rparr>, c) \<in> measure (\<lambda>c. length (pending (net (api c))))"
    by simp
qed

declare async_update_data.simps [simp del]

section \<open>Properties of the API client\<close>

text \<open>A client that has not logged in, talking to a backend that answers nothing.\<close>

definition api0 :: schluter_api where
  "api0 = init_api \<lparr>pending = [], sent = []\<rparr>"

text \<open>The spec's rule for the session identifier: the candidate keys in priority order,
  the first one present wins.\<close>

fun first_present :: "string list \<Rightarrow> (string \<times> json) list \<Rightarrow> json option" where
  "first_present [] kv = None"
| "first_present (k # ks) kv =
     (case map_of kv k of Some v \<Rightarrow> Some v | None \<Rightarrow> first_present ks kv)"

lemma connect_session_first_present:
  "connect_session kv =
     (case first_present [''session'', ''sessionId'', ''session_id''] kv of
        None \<Rightarrow> JNull | Some v \<Rightarrow> v)"
  by (simp add: connect_session_def split: option.splits)

text \<open>
  C5. With a session established and the write answered by a JSON object, \<open>set_temperature\<close>
  returns (it does not raise), and it returns True exactly when the echoed \<open>roomSetpoint\<close>
  equals the requested temperature: an echoed number \<open>e\<close> gives \<open>e = t\<close>, a missing echo
  gives False.
\<close>

theorem set_temperature_write_then_verify:
  assumes "truthy (session_id a)"
    and "pending (net a) = Http st (Some (JObj kv)) # rs"
    and "st < 400"
  shows "fst (set_temperature dev t a) = Inr (py_eq_float (dict_get kv ''roomSetpoint'' JNull) t) \<and>
    (\<forall>e. map_of kv ''roomSetpoint'' = Some (JNum e) \<longrightarrow>
       fst (set_temperature dev t a) = Inr (e = t)) \<and>
    (map_of kv ''roomSetpoint'' = None \<longrightarrow> fst (set_temperature dev t a) = Inr False)"
  using assms
  by (simp add: set_temperature_def send_def response_json_def py_eq_float_def dict_get_def)

theorem set_temperature_write_then_verify_witness:
  "truthy (session_id (api0\<lparr>session_id := JStr ''S'',
       net := \<lparr>pending = [Http 200 (Some (JObj [(''roomSetpoint'', JNum 21)]))], sent = []\<rparr>\<rparr>)) \<and>
   fst (set_temperature (JNum 7) 21
     (api0\<lparr>session_id := JStr ''S'',
       net := \<lparr>pending = [Http 200 (Some (JObj [(''roomSetpoint'', JNum 21)]))], sent = []\<rparr>\<rparr>)) = Inr True \<and>
   fst (set_temperature (JNum 7) 35
     (api0\<lparr>session_id := JStr ''S'',
       net := \<lparr>pending = [Http 200 (Some (JObj [(''roomSetpoint'', JNum 33)]))], sent = []\<rparr>\<rparr>)) = Inr False"
  using set_temperature_write_then_verify [of
      "api0\<lparr>session_id := JStr ''S'',
       net := \<lparr>pending = [Http 200 (Some (JObj [(''roomSetpoint'', JNum 21)]))], sent = []\<rparr>\<rparr>"
      200 "[(''roomSetpoint'', JNum 21)]" "[]" "JNum 7" 21]
    set_temperature_write_then_verify [of
      "api0\<lparr>session_id := JStr ''S'',
       net := \<lparr>pending = [Http 200 (Some (JObj [(''roomSetpoint'', JNum 33)]))], sent = []\<rparr>\<rparr>"
      200 "[(''roomSetpoint'', JNum 33)]" "[]" "JNum 7" 35]
  by (simp add: api0_def init_api_def py_eq_float_def dict_get_def)

text \<open>
  C6. \<open>set_mode\<close> and \<open>set_occupancy_mode\<close> do not read the backend's echo: asked for
  \<open>manual\<close> and answered \<open>schedule\<close> (asked for \<open>away\<close> and answered \<open>home\<close>), they return
  True, where \<open>set_temperature\<close> compares the echo and returns False.
\<close>

theorem set_mode_ignores_echo:
  "fst (set_mode (JNum 7) ''manual''
     (api0\<lparr>session_id := JStr ''S'',
       net := \<lparr>pending = [Http 200 (Some (JObj [(''setpointMode'', JStr ''schedule'')]))],
               sent = []\<rparr>\<rparr>)) = Inr True \<and>
   fst (set_occupancy_mode (JNum 7) ''away''
     (api0\<lparr>session_id := JStr ''S'',
       net := \<lparr>pending = [Http 200 (Some (JObj [(''occupancyMode'', JStr ''home'')]))],
               sent = []\<rparr>\<rparr>)) = Inr True"
  by (simp add: set_mode_def set_occupancy_mode_def send_def api0_def init_api_def)

text \<open>
  C7. A mode other than \<open>manual\<close> and \<open>schedule\<close>, and an occupancy other than \<open>home\<close> and
  \<open>away\<close>, is rejected with ValueError and the client is left as it was: no request was
  sent, no reply consumed, nothing tried again.
\<close>

theorem usage_error_before_network:
  "(mode \<notin> {''manual'', ''schedule''} \<longrightarrow> set_mode dev mode a = (Inl ValueError, a)) \<and>
   (occupancy \<notin> {''home'', ''away''} \<longrightarrow>
      set_occupancy_mode dev occupancy a = (Inl ValueError, a))"
  by (simp add: set_mode_def set_occupancy_mode_def)

theorem usage_error_before_network_witness:
  "''eco'' \<notin> {''manual'', ''schedule''} \<and>
   set_mode (JNum 7) ''eco'' (api0\<lparr>session_id := JStr ''S''\<rparr>) =
     (Inl ValueError, api0\<lparr>session_id := JStr ''S''\<rparr>) \<and>
   ''asleep'' \<notin> {''home'', ''away''} \<and>
   set_occupancy_mode (JNum 7) ''asleep'' (api0\<lparr>session_id := JStr ''S''\<rparr>) =
     (Inl ValueError, api0\<lparr>session_id := JStr ''S''\<rparr>)"
  using usage_error_before_network [of "''eco''" "JNum 7" "api0\<lparr>session_id := JStr ''S''\<rparr>" "''asleep''"]
  by simp

text \<open>
  C8. \<open>connect\<close> without a stored refresh token fails with SchluterAuthenticationError
  before any request. With one, it posts the token; no usable answer fails with the same
  error; in an answered object the session is the value of the first present key among
  \<open>session\<close>, \<open>sessionId\<close>, \<open>session_id\<close>; none present fails with the same error; and
  whenever \<open>connect\<close> returns, the returned identifier is the stored session.
\<close>

theorem connect_establishes_session:
  "(\<not> truthy (refresh_token a) \<longrightarrow> connect a = (Inl SchluterAuthenticationError, a)) \<and>
   (truthy (refresh_token a) \<longrightarrow>
      sent (net (snd (connect a))) = sent (net a) @ [PostConnect (refresh_token a)] \<and>
      (\<forall>r n. send (PostConnect (refresh_token a)) (net a) = (r, n) \<longrightarrow>
         (response_json r = None \<longrightarrow>
            connect a = (Inl SchluterAuthenticationError, a\<lparr>net := n\<rparr>)) \<and>
         (\<forall>kv. response_json r = Some (JObj kv) \<longrightarrow>
            (first_present [''session'', ''sessionId'', ''session_id''] kv = None \<longrightarrow>
               connect a = (Inl SchluterAuthenticationError, a\<lparr>net := n\<rparr>)) \<and>
            (\<forall>v. first_present [''session'', ''sessionId'', ''session_id''] kv = Some v \<and>
                 truthy v \<and> sliceable v \<longrightarrow>
               connect a = (Inr v, a\<lparr>net := n, session_id := v\<rparr>)))) \<and>
      (\<forall>s a'. connect a = (Inr s, a') \<longrightarrow>
         session_id a' = s \<and> truthy s \<and> refresh_token a' = refresh_token a))"
proof (cases "truthy (refresh_token a)")
  case False
  then show ?thesis by (simp add: connect_def)
next
  case True
  obtain r n where s: "send (PostConnect (refresh_token a)) (net a) = (r, n)" by force
  then have sent: "sent n = sent (net a) @ [PostConnect (refresh_token a)]"
    by (auto simp: send_def split: list.splits)
  have 1: "sent (net (snd (connect a))) = sent (net a) @ [PostConnect (refresh_token a)]"
    using True s sent
    by (auto simp: connect_def Let_def split: option.splits json.splits)
  have 2: "response_json r = None \<longrightarrow> connect a = (Inl SchluterAuthenticationError, a\<lparr>net := n\<rparr>)"
    using True s by (simp add: connect_def)
  have 3: "first_present [''session'', ''sessionId'', ''session_id''] kv = None \<longrightarrow>
      connect a = (Inl SchluterAuthenticationError, a\<lparr>net := n\<rparr>)"
    if "response_json r = Some (JObj kv)" for kv
    using True s that by (simp add: connect_def connect_session_first_present)
  have 4: "first_present [''session'', ''sessionId'', ''session_id''] kv = Some v \<and>
      truthy v \<and> sliceable v \<longrightarrow> connect a = (Inr v, a\<lparr>net := n, session_id := v\<rparr>)"
    if "response_json r = Some (JObj kv)" for kv v
    using True s that by (simp add: connect_def connect_session_first_present)
  have 5: "session_id a' = x \<and> truthy x \<and> refresh_token a' = refresh_token a"
    if "connect a = (Inr x, a')" for x a'
    using True s that
    by (auto simp: connect_def Let_def split: option.splits json.splits if_splits)
  from True s 1 2 3 4 5 show ?thesis by simp
qed

theorem connect_establishes_session_witness:
  "truthy (refresh_token (api0\<lparr>refresh_token := JStr ''R'',
       net := \<lparr>pending = [Http 200 (Some (JObj
         [(''session_id'', JStr ''C''), (''sessionId'', JStr ''B'')]))], sent = []\<rparr>\<rparr>)) \<and>
   connect (api0\<lparr>refresh_token := JStr ''R'',
       net := \<lparr>pending = [Http 200 (Some (JObj
         [(''session_id'', JStr ''C''), (''sessionId'', JStr ''B'')]))], sent = []\<rparr>\<rparr>) =
     (Inr (JStr ''B''),
      api0\<lparr>refresh_token := JStr ''R'', session_id := JStr ''B'',
        net := \<lparr>pending = [], sent = [PostConnect (JStr ''R'')]\<rparr>\<rparr>) \<and>
   \<not> truthy (refresh_token api0) \<and>
   connect api0 = (Inl SchluterAuthenticationError, api0)"
  using connect_establishes_session [of
      "api0\<lparr>refresh_token := JStr ''R'',
       net := \<lparr>pending = [Http 200 (Some (JObj
         [(''session_id'', JStr ''C''), (''sessionId'', JStr ''B'')]))], sent = []\<rparr>\<rparr>"]
    connect_establishes_session [of api0]
  by (simp add: api0_def init_api_def send_def response_json_def)

text \<open>
  C9. \<open>logout\<close> always returns True and changes nothing but the session identifier and
  the access token: the refresh token, the user and account identifiers and the network
  are as before. An established session is cleared together with the access token (with
  no session there is nothing to invalidate and the client is left as it was); afterwards
  no session is established, and \<open>connect\<close> posts the same refresh token.
\<close>

theorem logout_keeps_refresh_token:
  "fst (logout a) = True \<and>
   refresh_token (snd (logout a)) = refresh_token a \<and>
   user_id (snd (logout a)) = user_id a \<and>
   account_id (snd (logout a)) = account_id a \<and>
   net (snd (logout a)) = net a \<and>
   \<not> truthy (session_id (snd (logout a))) \<and>
   (truthy (session_id a) \<longrightarrow>
      snd (logout a) = a\<lparr>session_id := JNull, access_token := JNull\<rparr>) \<and>
   (\<not> truthy (session_id a) \<longrightarrow> snd (logout a) = a) \<and>
   (truthy (refresh_token a) \<longrightarrow>
      sent (net (snd (connect (snd (logout a))))) =
        sent (net a) @ [PostConnect (refresh_token a)])"
proof -
  have "truthy (refresh_token b) \<Longrightarrow>
      sent (net (snd (connect b))) = sent (net b) @ [PostConnect (refresh_token b)]" for b
    by (auto simp: connect_def Let_def send_def split: list.splits option.splits json.splits)
  from this [of "snd (logout a)"] show ?thesis
    by (simp add: logout_def)
qed

theorem logout_keeps_refresh_token_witness:
  "truthy (session_id (api0\<lparr>session_id := JStr ''S'', refresh_token := JStr ''R'',
       access_token := JStr ''A'', user_id := JNum 1, account_id := JNum 2\<rparr>)) \<and>
   logout (api0\<lparr>session_id := JStr ''S'', refresh_token := JStr ''R'',
       access_token := JStr ''A'', user_id := JNum 1, account_id := JNum 2\<rparr>) =
     (True, api0\<lparr>session_id := JNull, refresh_token := JStr ''R'',
       access_token := JNull, user_id := JNum 1, account_id := JNum 2\<rparr>) \<and>
   \<not> truthy (session_id (api0\<lparr>refresh_token := JStr ''R''\<rparr>)) \<and>
   logout (api0\<lparr>refresh_token := JStr ''R''\<rparr>) = (True, api0\<lparr>refresh_token := JStr ''R''\<rparr>)"
  using logout_keeps_refresh_token [of "api0\<lparr>session_id := JStr ''S'', refresh_token := JStr ''R'',
       access_token := JStr ''A'', user_id := JNum 1, account_id := JNum 2\<rparr>"]
    logout_keeps_refresh_token [of "api0\<lparr>refresh_token := JStr ''R''\<rparr>"]
  by (simp add: api0_def init_api_def prod_eq_iff)

text \<open>
  C10. In \<open>set_mode\<close> and \<open>set_occupancy_mode\<close> the argument is checked before the
  session: an invalid value gives ValueError whether or not a session is established, and
  never SchluterAuthenticationError; a valid value with no session gives
  SchluterAuthenticationError.
\<close>

theorem validation_precedes_session_check:
  "(mode \<notin> {''manual'', ''schedule''} \<longrightarrow>
      fst (set_mode dev mode a) = Inl ValueError \<and>
      fst (set_mode dev mode a) \<noteq> Inl SchluterAuthenticationError) \<and>
   (mode \<in> {''manual'', ''schedule''} \<and> \<not> truthy (session_id a) \<longrightarrow>
      set_mode dev mode a = (Inl SchluterAuthenticationError, a)) \<and>
   (occupancy \<notin> {''home'', ''away''} \<longrightarrow>
      fst (set_occupancy_mode dev occupancy a) = Inl ValueError \<and>
      fst (set_occupancy_mode dev occupancy a) \<noteq> Inl SchluterAuthenticationError) \<and>
   (occupancy \<in> {''home'', ''away''} \<and> \<not> truthy (session_id a) \<longrightarrow>
      set_occupancy_mode dev occupancy a = (Inl SchluterAuthenticationError, a))"
  by (simp add: set_mode_def set_occupancy_mode_def)

theorem validation_precedes_session_check_witness:
  "''eco'' \<notin> {''manual'', ''schedule''} \<and> \<not> truthy (session_id api0) \<and>
   fst (set_mode (JNum 7) ''eco'' api0) = Inl ValueError \<and>
   ''manual'' \<in> {''manual'', ''schedule''} \<and>
   set_mode (JNum 7) ''manual'' api0 = (Inl SchluterAuthenticationError, api0) \<and>
   ''asleep'' \<notin> {''home'', ''away''} \<and>
   fst (set_occupancy_mode (JNum 7) ''asleep'' api0) = Inl ValueError \<and>
   ''away'' \<in> {''home'', ''away''} \<and>
   set_occupancy_mode (JNum 7) ''away'' api0 = (Inl SchluterAuthenticationError, api0)"
  using validation_precedes_session_check [of "''eco''" "JNum 7" api0 "''asleep''"]
    validation_precedes_session_check [of "''manual''" "JNum 7" api0 "''away''"]
  by (simp add: api0_def init_api_def)

section \<open>A poll cycle with a session\<close>

text \<open>
  The reply a request will get, and the devices of a list whose status fetch fails or
  succeeds when they are asked in order against a script: the \<open>i\<close>-th device gets the
  \<open>i\<close>-th reply. A fetch fails when the reply is no answer, an error status, a body that is
  not JSON, or a body \<open>parse_thermostat\<close> raises on.
\<close>

fun next_reply :: "reply list \<Rightarrow> reply" where
  "next_reply [] = ConnError"
| "next_reply (r # rs) = r"

definition status_fails :: "json \<Rightarrow> reply \<Rightarrow> bool" where
  "status_fails dev r = (Option.bind (response_json r) (parse_thermostat dev) = None)"

fun answering :: "json list \<Rightarrow> reply list \<Rightarrow> json list" where
  "answering [] rs = []"
| "answering (d # ds) rs =
     (if status_fails d (next_reply rs) then [] else [d]) @ answering ds (tl rs)"

fun failing :: "json list \<Rightarrow> reply list \<Rightarrow> json list" where
  "failing [] rs = []"
| "failing (d # ds) rs =
     (if status_fails d (next_reply rs) then [d] else []) @ failing ds (tl rs)"

text \<open>The network after a list of requests was sent.\<close>

definition after_requests :: "request list \<Rightarrow> network \<Rightarrow> network" where
  "after_requests rqs n = \<lparr>pending = drop (length rqs) (pending n), sent = sent n @ rqs\<rparr>"

lemma send_eq:
  "send rq n = (next_reply (pending n), after_requests [rq] n)"
  by (cases "pending n") (simp_all add: send_def after_requests_def)

lemma after_requests_Nil: "after_requests [] n = n"
  by (simp add: after_requests_def)

lemma after_requests_Cons:
  "after_requests rqs (after_requests [rq] n) = after_requests (rq # rqs) n"
  by (simp add: after_requests_def drop_Suc tl_drop)

lemma pending_after_one: "pending (after_requests [rq] n) = tl (pending n)"
  by (simp add: after_requests_def drop_Suc)

lemma get_thermostat_status_session:
  assumes "truthy (session_id a)"
  shows "get_thermostat_status dev a =
    ((case Option.bind (response_json (next_reply (pending (net a)))) (parse_thermostat dev) of
        None \<Rightarrow> Inl SchluterAPIError | Some t \<Rightarrow> Inr t),
     a\<lparr>net := after_requests [GetStatus (session_id a) dev] (net a)\<rparr>)"
  using assms by (simp add: get_thermostat_status_def send_eq split: option.splits)

lemma get_thermostat_status_fails_iff:
  "truthy (session_id a) \<Longrightarrow>
     fst (get_thermostat_status dev a) = Inl SchluterAPIError \<longleftrightarrow>
     status_fails dev (next_reply (pending (net a)))"
  by (simp add: get_thermostat_status_session status_fails_def split: option.splits)

lemma keys_dict_set_new:
  "key_norm k \<notin> key_norm ` fst ` set d \<Longrightarrow> map fst (dict_set d k v) = map fst d @ [k]"
  by (induction d) auto

lemma answering_subset: "set (answering ds rs) \<subseteq> set ds"
  by (induction ds arbitrary: rs) auto

lemma failing_subset: "set (failing ds rs) \<subseteq> set ds"
  by (induction ds arbitrary: rs) auto

lemma answering_minus_failing:
  "distinct ds \<Longrightarrow> set (answering ds rs) = set ds - set (failing ds rs)"
proof (induction ds arbitrary: rs)
  case Nil
  then show ?case by simp
next
  case (Cons d ds)
  then have ih: "set (answering ds (tl rs)) = set ds - set (failing ds (tl rs))"
    and d: "d \<notin> set ds" by simp_all
  from d answering_subset [of ds "tl rs"] failing_subset [of ds "tl rs"]
  have "d \<notin> set (answering ds (tl rs))" "d \<notin> set (failing ds (tl rs))" by auto
  with ih d show ?case by auto
qed

lemma distinct_answering: "distinct ds \<Longrightarrow> distinct (answering ds rs)"
proof (induction ds arbitrary: rs)
  case Nil
  then show ?case by simp
next
  case (Cons d ds)
  with answering_subset [of ds "tl rs"] show ?case by auto
qed

lemma fetch_all_session:
  assumes "truthy (session_id a)"
  shows "\<exists>data'. fetch_all ds a data =
      (Inr data', a\<lparr>net := after_requests (map (\<lambda>p. GetStatus (session_id a) (fst p)) ds) (net a)\<rparr>) \<and>
    (distinct (map key_norm (map fst data @ map fst ds)) \<longrightarrow>
       map fst data' = map fst data @ answering (map fst ds) (pending (net a)))"
  using assms
proof (induction ds arbitrary: a data)
  case Nil
  then show ?case by (simp add: after_requests_Nil)
next
  case (Cons p rest)
  obtain dev kv where p: "p = (dev, kv)" by (cases p)
  let ?a1 = "a\<lparr>net := after_requests [GetStatus (session_id a) dev] (net a)\<rparr>"
  have s1: "truthy (session_id ?a1)" using Cons.prems by simp
  have net1: "after_requests (map (\<lambda>p. GetStatus (session_id a) (fst p)) rest) (net ?a1) =
      after_requests (map (\<lambda>p. GetStatus (session_id a) (fst p)) (p # rest)) (net a)"
    by (simp add: p after_requests_Cons)
  show ?case
  proof (cases "status_fails dev (next_reply (pending (net a)))")
    case True
    then have step: "fetch_all (p # rest) a data = fetch_all rest ?a1 data"
      using Cons.prems by (simp add: p get_thermostat_status_session status_fails_def)
    from Cons.IH [OF s1, of data] obtain data' where
      r: "fetch_all rest ?a1 data = (Inr data', ?a1\<lparr>net :=
          after_requests (map (\<lambda>p. GetStatus (session_id ?a1) (fst p)) rest) (net ?a1)\<rparr>)"
      and k: "distinct (map key_norm (map fst data @ map fst rest)) \<longrightarrow>
          map fst data' = map fst data @ answering (map fst rest) (pending (net ?a1))"
      by blast
    from r net1 have "fetch_all (p # rest) a data = (Inr data', a\<lparr>net :=
        after_requests (map (\<lambda>p. GetStatus (session_id a) (fst p)) (p # rest)) (net a)\<rparr>)"
      by (simp add: step)
    moreover from k True have "distinct (map key_norm (map fst data @ map fst (p # rest))) \<longrightarrow>
        map fst data' = map fst data @ answering (map fst (p # rest)) (pending (net a))"
      by (simp add: p pending_after_one)
    ultimately show ?thesis by blast
  next
    case False
    then obtain t where t: "Option.bind (response_json (next_reply (pending (net a))))
        (parse_thermostat dev) = Some t"
      by (auto simp: status_fails_def)
    let ?d1 = "dict_set data dev (t\<lparr>name := device_name dev kv\<rparr>)"
    have step: "fetch_all (p # rest) a data = fetch_all rest ?a1 ?d1"
      using Cons.prems t by (simp add: p get_thermostat_status_session)
    from Cons.IH [OF s1, of ?d1] obtain data' where
      r: "fetch_all rest ?a1 ?d1 = (Inr data', ?a1\<lparr>net :=
          after_requests (map (\<lambda>p. GetStatus (session_id ?a1) (fst p)) rest) (net ?a1)\<rparr>)"
      and k: "distinct (map key_norm (map fst ?d1 @ map fst rest)) \<longrightarrow>
          map fst data' = map fst ?d1 @ answering (map fst rest) (pending (net ?a1))"
      by blast
    from r net1 have "fetch_all (p # rest) a data = (Inr data', a\<lparr>net :=
        after_requests (map (\<lambda>p. GetStatus (session_id a) (fst p)) (p # rest)) (net a)\<rparr>)"
      by (simp add: step)
    moreover have "map fst data' = map fst data @ answering (map fst (p # rest)) (pending (net a))"
      if dist: "distinct (map key_norm (map fst data @ map fst (p # rest)))"
    proof -
      from dist have new: "key_norm dev \<notin> key_norm ` fst ` set data"
        by (auto simp: p)
      then have keys: "map fst ?d1 = map fst data @ [dev]"
        by (rule keys_dict_set_new)
      with dist have "distinct (map key_norm (map fst ?d1 @ map fst rest))"
        by (auto simp: p)
      with k keys False show ?thesis
        by (simp add: p pending_after_one)
    qed
    ultimately show ?thesis by blast
  qed
qed

definition status_requests :: "coordinator \<Rightarrow> json \<Rightarrow> request list" where
  "status_requests c sid = map (\<lambda>p. GetStatus sid (fst p)) (devices c)"

lemma update_body_session:
  assumes "truthy (session_id (api c))" and "devices c \<noteq> []"
  shows "\<exists>data. update_body c =
      (Inr data, c\<lparr>api := (api c)\<lparr>net :=
         after_requests (status_requests c (session_id (api c))) (net (api c))\<rparr>\<rparr>) \<and>
    (distinct (map (\<lambda>p. key_norm (fst p)) (devices c)) \<longrightarrow>
       map fst data = answering (map fst (devices c)) (pending (net (api c))))"
proof -
  from fetch_all_session [OF assms(1), of "devices c" "[]"] obtain data where
    "fetch_all (devices c) (api c) [] = (Inr data, (api c)\<lparr>net :=
        after_requests (map (\<lambda>p. GetStatus (session_id (api c)) (fst p)) (devices c)) (net (api c))\<rparr>)"
    and "distinct (map key_norm (map fst (devices c))) \<longrightarrow>
       map fst data = answering (map fst (devices c)) (pending (net (api c)))"
    by auto
  with assms(2) show ?thesis
    by (auto simp: update_body_def discover_def status_requests_def comp_def)
qed

lemma cycle_with_session:
  assumes "truthy (session_id (api c))" and "devices c \<noteq> []"
  shows "\<exists>data. async_update_data c =
      (Inr data, c\<lparr>api := (api c)\<lparr>net :=
         after_requests (status_requests c (session_id (api c))) (net (api c))\<rparr>\<rparr>) \<and>
    (distinct (map (\<lambda>p. key_norm (fst p)) (devices c)) \<longrightarrow>
       map fst data = answering (map fst (devices c)) (pending (net (api c))))"
proof -
  from update_body_session [OF assms] obtain data where
    "update_body c = (Inr data, c\<lparr>api := (api c)\<lparr>net :=
         after_requests (status_requests c (session_id (api c))) (net (api c))\<rparr>\<rparr>)"
    and "distinct (map (\<lambda>p. key_norm (fst p)) (devices c)) \<longrightarrow>
       map fst data = answering (map fst (devices c)) (pending (net (api c)))"
    by blast
  then show ?thesis
    by (subst async_update_data.simps) simp
qed

lemma distinct_of_map: "distinct (map f ys) \<Longrightarrow> distinct ys"
  by (simp add: distinct_map)

lemma distinct_key_norm: "distinct (map (\<lambda>p. key_norm (fst p)) ds) \<Longrightarrow> distinct (map fst ds)"
proof -
  assume "distinct (map (\<lambda>p. key_norm (fst p)) ds)"
  then have "distinct (map key_norm (map fst ds))" by (simp add: comp_def)
  then show ?thesis by (rule distinct_of_map)
qed

text \<open>A device's answer, and a coordinator with a session and three known devices.\<close>

definition ok_status :: reply where
  "ok_status = Http 200 (Some (JObj [(''roomSetpoint'', JNum 21)]))"

definition three_devices :: "reply list \<Rightarrow> coordinator" where
  "three_devices rs =
     \<lparr>api = (init_api \<lparr>pending = rs, sent = []\<rparr>)\<lparr>session_id := JStr ''S''\<rparr>,
      location_id = JNum 9,
      devices = [(JNum 1, [(''id'', JNum 1)]), (JNum 2, [(''id'', JNum 2)]), (JNum 3, [(''id'', JNum 3)])],
      entry_data = [(''refresh_token'', JStr ''R'')],
      reauth_flows = 0\<rparr>"

section \<open>Authentication failures in a poll cycle\<close>

lemma login_net:
  "login tok a = (r, a') \<Longrightarrow> net a' = after_requests [PostLogin tok] (net a)"
  by (auto simp: login_def send_eq split: option.splits prod.splits bool.splits
      dest: login_store_net)

lemma get_thermostat_status_no_session:
  "\<not> truthy (session_id a) \<Longrightarrow> get_thermostat_status dev a = (Inl SchluterAuthenticationError, a)"
  by (simp add: get_thermostat_status_def)

lemma update_body_no_session:
  assumes "\<not> truthy (session_id (api c))" and "devices c \<noteq> []"
  shows "update_body c = (Inl SchluterAuthenticationError, c)"
proof -
  from assms(2) obtain dev kv rest where ds: "devices c = (dev, kv) # rest"
    by (cases "devices c") auto
  with assms(1) have "fetch_all (devices c) (api c) [] = (Inl SchluterAuthenticationError, api c)"
    by (simp add: get_thermostat_status_no_session)
  with assms(2) show ?thesis by (simp add: update_body_def discover_def)
qed

lemma cycle_relogin:
  assumes "\<not> truthy (session_id (api c))" and "devices c \<noteq> []"
    and "map_of (entry_data c) ''refresh_token'' = Some tok"
    and "login tok (api c) = (Inr d, a2)"
  shows "async_update_data c =
    (case async_update_data (c\<lparr>api := a2\<rparr>) of
       (Inr data, c3) \<Rightarrow> (Inr data, c3)
     | (Inl e3, c3) \<Rightarrow> relogin_failed e3 c3)"
  using assms(3,4) update_body_no_session [OF assms(1,2)]
  by (subst async_update_data.simps) simp

text \<open>A coordinator with three known devices and no session, and two answers of the login
  endpoint: one without a \<open>session\<close> key, one with it.\<close>

definition logged_out :: "reply list \<Rightarrow> coordinator" where
  "logged_out rs =
     \<lparr>api = init_api \<lparr>pending = rs, sent = []\<rparr>,
      location_id = JNum 9,
      devices = [(JNum 1, [(''id'', JNum 1)]), (JNum 2, [(''id'', JNum 2)]), (JNum 3, [(''id'', JNum 3)])],
      entry_data = [(''refresh_token'', JStr ''R'')],
      reauth_flows = 0\<rparr>"

definition login_without_session :: reply where
  "login_without_session = Http 200 (Some (JObj [(''access_token'', JStr ''A'')]))"



text \<open>
  C1. A login endpoint that answers 200 without a \<open>session\<close> key leaves the client without
  a session, so the retried cycle raises SchluterAuthenticationError again, and the retry,
  being the same function, logs in again: here three logins are sent within one cycle
  (the third gets no answer and ends it), where the claim allows one.
\<close>

theorem relogin_repeats_within_cycle:
  "fst (async_update_data (logged_out [login_without_session, login_without_session])) =
     Inl (UpdateFailed Connection_failed) \<and>
   sent (net (api (snd (async_update_data
     (logged_out [login_without_session, login_without_session]))))) =
     [PostLogin (JStr ''R''), PostLogin (JStr ''R''), PostLogin (JStr ''R'')] \<and>
   reauth_flows (snd (async_update_data
     (logged_out [login_without_session, login_without_session]))) = 1"
  by (simp add: async_update_data.simps update_body_def discover_def
      get_thermostat_status_def login_def login_store_def send_def response_json_def
      relogin_failed_def logged_out_def login_without_session_def init_api_def dict_get_def)

lemma login_without_session_step:
  assumes "pending (net a) = login_without_session # rs"
  shows "\<exists>d a2. login tok a = (Inr d, a2) \<and> session_id a2 = session_id a \<and>
    net a2 = \<lparr>pending = rs, sent = sent (net a) @ [PostLogin tok]\<rparr>"
  using assms
  by (simp add: login_def login_store_def send_def response_json_def
      login_without_session_def dict_get_def)

lemma login_unanswered:
  assumes "pending (net a) = []"
  shows "login tok a =
    (Inl SchluterAuthenticationError, a\<lparr>net := (net a)\<lparr>sent := sent (net a) @ [PostLogin tok]\<rparr>\<rparr>)"
  using assms by (simp add: login_def send_def response_json_def)

lemma relogin_failed_api: "api (snd (relogin_failed e c)) = api c"
  by (simp add: relogin_failed_def)

section \<open>Device discovery\<close>

text \<open>The discovery requests among those a coordinator has sent.\<close>

fun is_discovery :: "request \<Rightarrow> bool" where
  "is_discovery (GetDevices sid location) = True"
| "is_discovery rq = False"

definition discoveries :: "coordinator \<Rightarrow> request list" where
  "discoveries c = filter is_discovery (sent (net (api c)))"

text \<open>An entry of the device list the loop can store: a dict with a hashable \<open>id\<close>.\<close>

fun well_formed_device :: "json \<Rightarrow> bool" where
  "well_formed_device (JObj kv) =
     (case map_of kv ''id'' of None \<Rightarrow> False | Some k \<Rightarrow> hashable k)"
| "well_formed_device v = False"

text \<open>A stored entry is indexed by its device id: the value is an entry of the list, under
  the key its own \<open>id\<close> field names.\<close>

definition indexed_by_id :: "json list \<Rightarrow> json \<times> (string \<times> json) list \<Rightarrow> bool" where
  "indexed_by_id items p =
     (JObj (snd p) \<in> set items \<and>
      (case map_of (snd p) ''id'' of None \<Rightarrow> False | Some k \<Rightarrow> key_norm k = key_norm (fst p)))"

lemma get_thermostat_status_discovery:
  "get_thermostat_status dev a = (r, a') \<Longrightarrow>
     filter is_discovery (sent (net a')) = filter is_discovery (sent (net a))"
  by (auto simp: get_thermostat_status_def send_eq after_requests_def
      split: if_splits option.splits)

lemma fetch_all_discovery:
  "fetch_all ds a data = (r, a') \<Longrightarrow>
     filter is_discovery (sent (net a')) = filter is_discovery (sent (net a))"
proof (induction ds arbitrary: a data)
  case Nil
  then show ?case by simp
next
  case (Cons p rest)
  obtain dev kv where p: "p = (dev, kv)" by (cases p)
  obtain x a1 where g: "get_thermostat_status dev a = (x, a1)" by force
  then have one: "filter is_discovery (sent (net a1)) = filter is_discovery (sent (net a))"
    by (rule get_thermostat_status_discovery)
  from Cons.prems p g obtain data' where "fetch_all rest a1 data' = (r, a') \<or> a' = a1"
    by (auto split: sum.splits if_splits)
  then have "filter is_discovery (sent (net a')) = filter is_discovery (sent (net a1))"
    using Cons.IH by auto
  with one show ?case by simp
qed

lemma update_body_known:
  assumes "devices c \<noteq> []" and "update_body c = (r, c1)"
  shows "devices c1 = devices c \<and> discoveries c1 = discoveries c \<and>
    entry_data c1 = entry_data c"
proof -
  obtain x a where f: "fetch_all (devices c) (api c) [] = (x, a)" by force
  with assms have "c1 = c\<lparr>api := a\<rparr>"
    by (auto simp: update_body_def discover_def)
  with fetch_all_discovery [OF f] show ?thesis by (simp add: discoveries_def)
qed

lemma relogin_failed_known:
  "relogin_failed e c = (r, c') \<Longrightarrow> devices c' = devices c \<and> discoveries c' = discoveries c"
  by (auto simp: relogin_failed_def discoveries_def split: if_splits)

lemma login_discovery:
  "login tok a = (r, a') \<Longrightarrow>
     filter is_discovery (sent (net a')) = filter is_discovery (sent (net a))"
  by (auto dest!: login_net simp: after_requests_def)

lemma cycle_keeps_known_devices:
  "devices c \<noteq> [] \<Longrightarrow>
     devices (snd (async_update_data c)) = devices c \<and>
     discoveries (snd (async_update_data c)) = discoveries c"
proof (induction c rule: async_update_data.induct)
  case (1 c)
  obtain x c1 where ub: "update_body c = (x, c1)" by force
  from update_body_known [OF "1.prems" ub]
  have k1: "devices c1 = devices c" "discoveries c1 = discoveries c" by simp_all
  show ?case
  proof (cases x)
    case (Inr data)
    with ub k1 show ?thesis by (subst (1 2) async_update_data.simps) simp
  next
    case (Inl e)
    show ?thesis
    proof (cases "e = SchluterAuthenticationError")
      case False
      with ub Inl k1 show ?thesis by (subst (1 2) async_update_data.simps) simp
    next
      case True
      show ?thesis
      proof (cases "map_of (entry_data c1) ''refresh_token''")
        case None
        obtain r' c' where rf: "relogin_failed KeyError c1 = (r', c')" by force
        with ub Inl True None have "async_update_data c = (r', c')"
          by (subst async_update_data.simps) simp
        with relogin_failed_known [OF rf] k1 show ?thesis by simp
      next
        case (Some tok)
        obtain y a2 where lg: "login tok (api c1) = (y, a2)" by force
        show ?thesis
        proof (cases y)
          case (Inl e2)
          obtain r' c' where rf: "relogin_failed e2 (c1\<lparr>api := a2\<rparr>) = (r', c')" by force
          with ub \<open>x = Inl e\<close> True Some lg Inl have "async_update_data c = (r', c')"
            by (subst async_update_data.simps) simp
          with relogin_failed_known [OF rf] login_discovery [OF lg] k1 show ?thesis
            by (simp add: discoveries_def)
        next
          case (Inr d)
          let ?c2 = "c1\<lparr>api := a2\<rparr>"
          have "devices ?c2 \<noteq> []" using k1 "1.prems" by simp
          with "1.IH" [OF ub [symmetric] \<open>x = Inl e\<close> True Some lg [symmetric] Inr]
          have ih: "devices (snd (async_update_data ?c2)) = devices ?c2"
            "discoveries (snd (async_update_data ?c2)) = discoveries ?c2" by simp_all
          have c2: "devices ?c2 = devices c" "discoveries ?c2 = discoveries c"
            using k1 login_discovery [OF lg] by (simp_all add: discoveries_def)
          obtain z c3 where rec: "async_update_data ?c2 = (z, c3)" by force
          show ?thesis
          proof (cases z)
            case (Inr data)
            with ub \<open>x = Inl e\<close> True Some lg \<open>y = Inr d\<close> rec
            have "async_update_data c = (Inr data, c3)"
              by (subst async_update_data.simps) simp
            with ih c2 rec show ?thesis by simp
          next
            case (Inl e3)
            obtain r' c' where rf: "relogin_failed e3 c3 = (r', c')" by force
            with ub \<open>x = Inl e\<close> True Some lg \<open>y = Inr d\<close> rec Inl
            have "async_update_data c = (r', c')"
              by (subst async_update_data.simps) simp
            with relogin_failed_known [OF rf] ih c2 rec show ?thesis by simp
          qed
        qed
      qed
    qed
  qed
qed

text \<open>The ids of the entries of a device list.\<close>

fun device_ids :: "json list \<Rightarrow> json list" where
  "device_ids [] = []"
| "device_ids (JObj kv # rest) =
     (case map_of kv ''id'' of None \<Rightarrow> [] | Some k \<Rightarrow> [k]) @ device_ids rest"
| "device_ids (v # rest) = device_ids rest"

lemma dict_set_entries:
  "p \<in> set (dict_set ds k v) \<Longrightarrow> p \<in> set ds \<or> (snd p = v \<and> key_norm (fst p) = key_norm k)"
  by (induction ds) (auto split: if_splits)

lemma dict_set_norm_keys:
  "map (\<lambda>p. key_norm (fst p)) (dict_set ds k v) =
     (if key_norm k \<in> (\<lambda>p. key_norm (fst p)) ` set ds
      then map (\<lambda>p. key_norm (fst p)) ds
      else map (\<lambda>p. key_norm (fst p)) ds @ [key_norm k])"
proof (induction ds)
  case Nil
  show ?case by simp
next
  case (Cons q ds)
  obtain k' v' where q: "q = (k', v')" by (cases q)
  show ?case
  proof (cases "key_norm k' = key_norm k")
    case True
    with q show ?thesis by simp
  next
    case False
    with q Cons show ?thesis by (simp add: eq_commute)
  qed
qed

lemma dict_set_keys:
  "(\<lambda>p. key_norm (fst p)) ` set (dict_set ds k v) =
     insert (key_norm k) ((\<lambda>p. key_norm (fst p)) ` set ds)"
proof -
  have "(\<lambda>p. key_norm (fst p)) ` set (dict_set ds k v) =
      set (map (\<lambda>p. key_norm (fst p)) (dict_set ds k v))" by simp
  also have "\<dots> = insert (key_norm k) ((\<lambda>p. key_norm (fst p)) ` set ds)"
    unfolding dict_set_norm_keys by auto
  finally show ?thesis .
qed

lemma dict_set_distinct:
  "distinct (map (\<lambda>p. key_norm (fst p)) ds) \<Longrightarrow>
     distinct (map (\<lambda>p. key_norm (fst p)) (dict_set ds k v))"
  unfolding dict_set_norm_keys by simp

lemma store_devices_well_formed:
  assumes "\<forall>d \<in> set xs. well_formed_device d"
    and "set xs \<subseteq> set items"
    and "\<forall>p \<in> set ds. indexed_by_id items p"
    and "distinct (map (\<lambda>p. key_norm (fst p)) ds)"
  shows "\<exists>ds'. store_devices xs ds = (None, ds') \<and>
    (\<forall>p \<in> set ds'. indexed_by_id items p) \<and>
    distinct (map (\<lambda>p. key_norm (fst p)) ds') \<and>
    (\<lambda>p. key_norm (fst p)) ` set ds' =
      (\<lambda>p. key_norm (fst p)) ` set ds \<union> key_norm ` set (device_ids xs)"
  using assms
proof (induction xs arbitrary: ds)
  case Nil
  then show ?case by simp
next
  case (Cons d xs)
  from Cons.prems(1) obtain kv k where d: "d = JObj kv" and id: "map_of kv ''id'' = Some k"
    and h: "hashable k"
    by (cases d) (auto split: option.splits)
  let ?ds1 = "dict_set ds k kv"
  have step: "store_devices (d # xs) ds = store_devices xs ?ds1"
    using d id h by simp
  have new: "indexed_by_id items p" if "p \<in> set ?ds1" for p
  proof -
    from dict_set_entries [OF that] show ?thesis
    proof
      assume "p \<in> set ds"
      with Cons.prems(3) show ?thesis by simp
    next
      assume "snd p = kv \<and> key_norm (fst p) = key_norm k"
      with d id Cons.prems(2) show ?thesis by (simp add: indexed_by_id_def)
    qed
  qed
  from Cons.prems have "\<forall>d \<in> set xs. well_formed_device d" and "set xs \<subseteq> set items"
    by simp_all
  moreover from new have "\<forall>p \<in> set ?ds1. indexed_by_id items p" by blast
  moreover from Cons.prems(4) have "distinct (map (\<lambda>p. key_norm (fst p)) ?ds1)"
    by (rule dict_set_distinct)
  ultimately obtain ds' where r: "store_devices xs ?ds1 = (None, ds')"
    and i: "\<forall>p \<in> set ds'. indexed_by_id items p"
    and di: "distinct (map (\<lambda>p. key_norm (fst p)) ds')"
    and ks: "(\<lambda>p. key_norm (fst p)) ` set ds' =
      (\<lambda>p. key_norm (fst p)) ` set ?ds1 \<union> key_norm ` set (device_ids xs)"
    using Cons.IH [of ?ds1] by blast
  from ks have "(\<lambda>p. key_norm (fst p)) ` set ds' =
      (\<lambda>p. key_norm (fst p)) ` set ds \<union> key_norm ` set (device_ids (d # xs))"
    by (simp add: dict_set_keys d id)
  with r i di step show ?case by simp
qed

lemma get_devices_session:
  "truthy (session_id a) \<Longrightarrow> get_devices loc a = (r, a') \<Longrightarrow>
     a' = a\<lparr>net := after_requests [GetDevices (session_id a) loc] (net a)\<rparr>"
  by (auto simp: get_devices_def send_eq split: option.splits json.splits)

lemma get_devices_ok_session: "get_devices loc a = (Inr v, a') \<Longrightarrow> truthy (session_id a)"
  by (auto simp: get_devices_def split: if_splits)

text \<open>
  C4, as the code has it. Discovery runs only while the device set is empty: with a
  non-empty set the cycle neither fetches the list nor changes the set, whatever else
  happens in the cycle. With an empty set the list is fetched; when every entry is a dict
  with a hashable \<open>id\<close>, the entries are stored indexed by that id (one key per id). When
  the fetch itself fails with SchluterAPIError, the cycle ends with UpdateFailed, the set
  is still empty, and the next cycle's discovery sends the request again.
\<close>

theorem discovery_only_while_directory_empty:
  "(devices c \<noteq> [] \<longrightarrow>
      discover c = (None, c) \<and>
      devices (snd (async_update_data c)) = devices c \<and>
      discoveries (snd (async_update_data c)) = discoveries c) \<and>
   (devices c = [] \<and> get_devices (location_id c) (api c) = (Inr (JArr items), a) \<and>
    (\<forall>d \<in> set items. well_formed_device d) \<longrightarrow>
      (\<exists>ds. discover c = (None, c\<lparr>api := a, devices := ds\<rparr>) \<and>
         (\<forall>p \<in> set ds. indexed_by_id items p) \<and>
         (\<lambda>p. key_norm (fst p)) ` set ds = key_norm ` set (device_ids items) \<and>
         distinct (map (\<lambda>p. key_norm (fst p)) ds)) \<and>
      sent (net a) = sent (net (api c)) @ [GetDevices (session_id (api c)) (location_id c)]) \<and>
   (devices c = [] \<and> truthy (session_id (api c)) \<and>
    fst (get_devices (location_id c) (api c)) = Inl SchluterAPIError \<longrightarrow>
      fst (async_update_data c) = Inl (UpdateFailed Error_communicating) \<and>
      devices (snd (async_update_data c)) = [] \<and>
      sent (net (api (snd (discover (snd (async_update_data c)))))) =
        sent (net (api (snd (async_update_data c)))) @
          [GetDevices (session_id (api c)) (location_id c)])"
proof (intro conjI impI)
  assume "devices c \<noteq> []"
  then show "discover c = (None, c)" by (simp add: discover_def)
next
  assume "devices c \<noteq> []"
  then show "devices (snd (async_update_data c)) = devices c"
    by (simp add: cycle_keeps_known_devices)
next
  assume "devices c \<noteq> []"
  then show "discoveries (snd (async_update_data c)) = discoveries c"
    by (simp add: cycle_keeps_known_devices)
next
  assume h: "devices c = [] \<and> get_devices (location_id c) (api c) = (Inr (JArr items), a) \<and>
    (\<forall>d \<in> set items. well_formed_device d)"
  then have "\<exists>ds'. store_devices items [] = (None, ds') \<and>
    (\<forall>p \<in> set ds'. indexed_by_id items p) \<and>
    distinct (map (\<lambda>p. key_norm (fst p)) ds') \<and>
    (\<lambda>p. key_norm (fst p)) ` set ds' =
      (\<lambda>p. key_norm (fst p)) ` set [] \<union> key_norm ` set (device_ids items)"
    using store_devices_well_formed [of items items "[]"] by simp
  then obtain ds where "store_devices items [] = (None, ds)"
    and "\<forall>p \<in> set ds. indexed_by_id items p"
    and "distinct (map (\<lambda>p. key_norm (fst p)) ds)"
    and "(\<lambda>p. key_norm (fst p)) ` set ds = key_norm ` set (device_ids items)"
    by auto
  with h show "\<exists>ds. discover c = (None, c\<lparr>api := a, devices := ds\<rparr>) \<and>
         (\<forall>p \<in> set ds. indexed_by_id items p) \<and>
         (\<lambda>p. key_norm (fst p)) ` set ds = key_norm ` set (device_ids items) \<and>
         distinct (map (\<lambda>p. key_norm (fst p)) ds)"
    by (intro exI [of _ ds]) (simp add: discover_def)
next
  assume h: "devices c = [] \<and> get_devices (location_id c) (api c) = (Inr (JArr items), a) \<and>
    (\<forall>d \<in> set items. well_formed_device d)"
  then have "truthy (session_id (api c))" by (auto dest: get_devices_ok_session)
  with h have "a = (api c)\<lparr>net :=
      after_requests [GetDevices (session_id (api c)) (location_id c)] (net (api c))\<rparr>"
    by (auto dest: get_devices_session)
  then show "sent (net a) = sent (net (api c)) @ [GetDevices (session_id (api c)) (location_id c)]"
    by (simp add: after_requests_def)
next
  assume h: "devices c = [] \<and> truthy (session_id (api c)) \<and>
    fst (get_devices (location_id c) (api c)) = Inl SchluterAPIError"
  obtain a' where g: "get_devices (location_id c) (api c) = (Inl SchluterAPIError, a')"
    using h by (cases "get_devices (location_id c) (api c)") auto
  with h have a': "a' = (api c)\<lparr>net :=
      after_requests [GetDevices (session_id (api c)) (location_id c)] (net (api c))\<rparr>"
    by (auto dest: get_devices_session)
  from h g have ub: "update_body c = (Inl SchluterAPIError, c\<lparr>api := a'\<rparr>)"
    by (simp add: update_body_def discover_def)
  then have run: "async_update_data c = (Inl (UpdateFailed Error_communicating), c\<lparr>api := a'\<rparr>)"
    by (subst async_update_data.simps) simp
  from run show "fst (async_update_data c) = Inl (UpdateFailed Error_communicating)" by simp
  from run h show "devices (snd (async_update_data c)) = []" by simp
  obtain r2 a2 where g2: "get_devices (location_id c) a' = (r2, a2)" by force
  from h a' have "truthy (session_id a')" by simp
  from get_devices_session [OF this g2] a'
  have "sent (net a2) = sent (net a') @ [GetDevices (session_id (api c)) (location_id c)]"
    by (simp add: after_requests_def)
  with run h g2 show "sent (net (api (snd (discover (snd (async_update_data c)))))) =
        sent (net (api (snd (async_update_data c)))) @
          [GetDevices (session_id (api c)) (location_id c)]"
    by (auto simp: discover_def split: sum.splits option.splits prod.splits)
qed

text \<open>A coordinator with a session and no devices yet, and an answer of the device list
  endpoint.\<close>

definition undiscovered :: "reply list \<Rightarrow> coordinator" where
  "undiscovered rs =
     \<lparr>api = (init_api \<lparr>pending = rs, sent = []\<rparr>)\<lparr>session_id := JStr ''S''\<rparr>,
      location_id = JNum 9,
      devices = [],
      entry_data = [(''refresh_token'', JStr ''R'')],
      reauth_flows = 0\<rparr>"

definition device_list :: "json list \<Rightarrow> reply" where
  "device_list items = Http 200 (Some (JObj [(''devices'', JArr items)]))"

definition two_listed :: "json list" where
  "two_listed = [JObj [(''id'', JNum 1), (''name'', JStr ''hall'')], JObj [(''id'', JNum 2)]]"

definition after_discovery :: schluter_api where
  "after_discovery = \<lparr>session_id = JStr ''S'', refresh_token = JNull, access_token = JNull,
     user_id = JNull, account_id = JNull,
     net = \<lparr>pending = [], sent = [GetDevices (JStr ''S'') (JNum 9)]\<rparr>\<rparr>"

theorem discovery_only_while_directory_empty_witness:
  "devices (three_devices []) \<noteq> [] \<and>
   discover (three_devices []) = (None, three_devices []) \<and>
   devices (snd (async_update_data (three_devices []))) = devices (three_devices []) \<and>
   devices (undiscovered [device_list two_listed]) = [] \<and>
   get_devices (location_id (undiscovered [device_list two_listed]))
     (api (undiscovered [device_list two_listed])) = (Inr (JArr two_listed), after_discovery) \<and>
   list_all well_formed_device two_listed \<and>
   discover (undiscovered [device_list two_listed]) =
     (None, (undiscovered [device_list two_listed])\<lparr>api := after_discovery,
        devices := [(JNum 1, [(''id'', JNum 1), (''name'', JStr ''hall'')]),
                    (JNum 2, [(''id'', JNum 2)])]\<rparr>) \<and>
   devices (undiscovered [Http 500 None]) = [] \<and>
   truthy (session_id (api (undiscovered [Http 500 None]))) \<and>
   fst (get_devices (location_id (undiscovered [Http 500 None]))
     (api (undiscovered [Http 500 None]))) = Inl SchluterAPIError \<and>
   fst (async_update_data (undiscovered [Http 500 None])) = Inl (UpdateFailed Error_communicating) \<and>
   devices (snd (async_update_data (undiscovered [Http 500 None]))) = []"
proof -
  have g: "get_devices (location_id (undiscovered [device_list two_listed]))
     (api (undiscovered [device_list two_listed])) = (Inr (JArr two_listed), after_discovery)"
    by (simp add: get_devices_def send_def response_json_def undiscovered_def device_list_def
        init_api_def dict_get_def after_discovery_def)
  have w: "list_all well_formed_device two_listed"
    by (simp add: two_listed_def)
  have d: "discover (undiscovered [device_list two_listed]) =
     (None, (undiscovered [device_list two_listed])\<lparr>api := after_discovery,
        devices := [(JNum 1, [(''id'', JNum 1), (''name'', JStr ''hall'')]),
                    (JNum 2, [(''id'', JNum 2)])]\<rparr>)"
    by (simp add: discover_def g) (simp add: two_listed_def undiscovered_def)
  have f: "fst (get_devices (location_id (undiscovered [Http 500 None]))
     (api (undiscovered [Http 500 None]))) = Inl SchluterAPIError"
    by (simp add: get_devices_def send_def response_json_def undiscovered_def init_api_def)
  from g w d f
    discovery_only_while_directory_empty [of "three_devices []" two_listed after_discovery]
    discovery_only_while_directory_empty [of "undiscovered [device_list two_listed]" two_listed
      after_discovery]
    discovery_only_while_directory_empty [of "undiscovered [Http 500 None]" two_listed
      after_discovery]
  show ?thesis
    by (simp add: undiscovered_def three_devices_def init_api_def)
qed

text \<open>
  C4 as stated fails: a device list whose second entry has no \<open>id\<close> makes the loop raise
  after the first entry was stored. The cycle fails, and the device set is left holding
  that one device, so later cycles do not discover again.
\<close>

theorem partial_directory_after_failed_discovery:
  "fst (async_update_data (undiscovered
     [device_list [JObj [(''id'', JNum 1)], JObj [(''name'', JStr ''hall'')]]])) =
     Inl (UpdateFailed Error_communicating) \<and>
   devices (snd (async_update_data (undiscovered
     [device_list [JObj [(''id'', JNum 1)], JObj [(''name'', JStr ''hall'')]]]))) =
     [(JNum 1, [(''id'', JNum 1)])]"
  by (simp add: async_update_data.simps update_body_def discover_def get_devices_def
      send_def response_json_def undiscovered_def device_list_def init_api_def dict_get_def)

section \<open>The cycle from discovery to the poll result\<close>

lemma store_devices_distinct:
  "store_devices xs ds = (r, ds') \<Longrightarrow> distinct (map (\<lambda>p. key_norm (fst p)) ds) \<Longrightarrow>
     distinct (map (\<lambda>p. key_norm (fst p)) ds')"
proof (induction xs arbitrary: ds)
  case Nil
  then show ?case by simp
next
  case (Cons d xs)
  show ?case
  proof (cases "well_formed_device d")
    case False
    with Cons.prems show ?thesis
      by (cases d) (auto split: option.splits if_splits)
  next
    case True
    then obtain kv k where d: "d = JObj kv" and id: "map_of kv ''id'' = Some k" and h: "hashable k"
      by (cases d) (auto split: option.splits)
    with Cons.prems(1) have "store_devices xs (dict_set ds k kv) = (r, ds')" by simp
    moreover from Cons.prems(2) have "distinct (map (\<lambda>p. key_norm (fst p)) (dict_set ds k kv))"
      by (rule dict_set_distinct)
    ultimately show ?thesis by (rule Cons.IH)
  qed
qed

text \<open>What discovery leaves as it was, and what it sends.\<close>

lemma discover_frame:
  assumes "discover c = (r, c1)"
  shows "session_id (api c1) = session_id (api c) \<and> reauth_flows c1 = reauth_flows c \<and>
    entry_data c1 = entry_data c \<and> location_id c1 = location_id c \<and>
    (devices c \<noteq> [] \<longrightarrow> c1 = c)"
  using assms
  by (auto simp: discover_def get_devices_def split: if_splits prod.splits sum.splits
      option.splits json.splits)

lemma discover_distinct:
  assumes "discover c = (r, c1)" and "distinct (map (\<lambda>p. key_norm (fst p)) (devices c))"
  shows "distinct (map (\<lambda>p. key_norm (fst p)) (devices c1))"
proof (cases "devices c = []")
  case False
  with assms show ?thesis by (simp add: discover_def)
next
  case True
  with assms(1) have "devices c1 = [] \<or> (\<exists>xs r'. store_devices xs [] = (r', devices c1))"
    by (auto simp: discover_def split: prod.splits sum.splits option.splits)
  then show ?thesis
  proof
    assume "devices c1 = []"
    then show ?thesis by simp
  next
    assume "\<exists>xs r'. store_devices xs [] = (r', devices c1)"
    then obtain xs r' where "store_devices xs [] = (r', devices c1)" by blast
    then show ?thesis by (rule store_devices_distinct) simp
  qed
qed

lemma discover_sent:
  assumes "truthy (session_id (api c))" and "discover c = (r, c1)"
  shows "sent (net (api c1)) = sent (net (api c)) @
    (if devices c = [] then [GetDevices (session_id (api c)) (location_id c)] else [])"
proof (cases "devices c = []")
  case False
  with assms show ?thesis by (simp add: discover_def)
next
  case True
  obtain x a where g: "get_devices (location_id c) (api c) = (x, a)" by force
  from get_devices_session [OF assms(1) g]
  have "sent (net a) = sent (net (api c)) @ [GetDevices (session_id (api c)) (location_id c)]"
    by (simp add: after_requests_def)
  moreover from assms(2) True g have "api c1 = a"
    by (auto simp: discover_def split: sum.splits option.splits prod.splits)
  ultimately show ?thesis using True by simp
qed

lemma cycle_discovered:
  assumes "truthy (session_id (api c))" and "discover c = (None, c1)"
  shows "\<exists>data. async_update_data c =
      (Inr data, c1\<lparr>api := (api c1)\<lparr>net :=
         after_requests (status_requests c1 (session_id (api c))) (net (api c1))\<rparr>\<rparr>) \<and>
    (distinct (map (\<lambda>p. key_norm (fst p)) (devices c1)) \<longrightarrow>
       map fst data = answering (map fst (devices c1)) (pending (net (api c1))))"
proof -
  from discover_frame [OF assms(2)] assms(1)
  have s1: "truthy (session_id (api c1))" and sid: "session_id (api c1) = session_id (api c)"
    by simp_all
  from fetch_all_session [OF s1, of "devices c1" "[]"] sid obtain data where
    f: "fetch_all (devices c1) (api c1) [] = (Inr data, (api c1)\<lparr>net :=
        after_requests (status_requests c1 (session_id (api c))) (net (api c1))\<rparr>)"
    and k: "distinct (map key_norm (map fst (devices c1))) \<longrightarrow>
       map fst data = answering (map fst (devices c1)) (pending (net (api c1)))"
    by (auto simp: status_requests_def)
  from assms(2) f have "update_body c = (Inr data, c1\<lparr>api := (api c1)\<lparr>net :=
        after_requests (status_requests c1 (session_id (api c))) (net (api c1))\<rparr>\<rparr>)"
    by (simp add: update_body_def)
  then have "async_update_data c = (Inr data, c1\<lparr>api := (api c1)\<lparr>net :=
        after_requests (status_requests c1 (session_id (api c))) (net (api c1))\<rparr>\<rparr>)"
    by (subst async_update_data.simps) simp
  with k show ?thesis by (auto simp: comp_def)
qed

text \<open>
  C2. Let \<open>D\<close> be the device set the cycle works on: the stored one, or the one this cycle's
  discovery has just stored (\<open>discover\<close> returns without an error and leaves it in \<open>c1\<close>).
  With a session established, let \<open>F\<close> be the devices of \<open>D\<close> whose status fetch fails
  against the backend's replies. The cycle returns a poll result whose keys are exactly
  \<open>D - F\<close>: a failing device is left out, the cycle is not aborted, and each device is asked
  exactly once (after the discovery request, if there was one, the requests sent are one
  status request per device, in order, and nothing else).
\<close>

theorem poll_keys_are_devices_minus_failures:
  assumes "truthy (session_id (api c))"
    and "distinct (map (\<lambda>p. key_norm (fst p)) (devices c))"
    and "discover c = (None, c1)"
  shows "\<exists>data c'. async_update_data c = (Inr data, c') \<and>
    set (map fst data) =
      set (map fst (devices c1)) - set (failing (map fst (devices c1)) (pending (net (api c1)))) \<and>
    distinct (map fst data) \<and>
    sent (net (api c')) = sent (net (api c)) @
      (if devices c = [] then [GetDevices (session_id (api c)) (location_id c)] else []) @
      status_requests c1 (session_id (api c)) \<and>
    devices c' = devices c1 \<and> reauth_flows c' = reauth_flows c \<and>
    (devices c \<noteq> [] \<longrightarrow> c1 = c)"
proof -
  from discover_distinct [OF assms(3,2)]
  have dk: "distinct (map (\<lambda>p. key_norm (fst p)) (devices c1))" .
  then have d: "distinct (map fst (devices c1))" by (rule distinct_key_norm)
  from cycle_discovered [OF assms(1,3)] dk obtain data where
    run: "async_update_data c =
      (Inr data, c1\<lparr>api := (api c1)\<lparr>net :=
         after_requests (status_requests c1 (session_id (api c))) (net (api c1))\<rparr>\<rparr>)"
    and keys: "map fst data = answering (map fst (devices c1)) (pending (net (api c1)))"
    by blast
  from keys d have "set (map fst data) =
      set (map fst (devices c1)) - set (failing (map fst (devices c1)) (pending (net (api c1))))"
    by (simp add: answering_minus_failing)
  moreover from keys d have "distinct (map fst data)" by (simp add: distinct_answering)
  moreover note discover_sent [OF assms(1,3)] discover_frame [OF assms(3)]
  ultimately show ?thesis using run by (simp add: after_requests_def)
qed

text \<open>The spec's scenario: no devices stored, a discovery that lists three, and the
  second of them answering with a server error.\<close>

definition three_listed :: "json list" where
  "three_listed = [JObj [(''id'', JNum 1)], JObj [(''id'', JNum 2)], JObj [(''id'', JNum 3)]]"

definition discovered_three :: "json \<Rightarrow> request list \<Rightarrow> reply list \<Rightarrow> coordinator" where
  "discovered_three sid rqs rs =
     \<lparr>api = \<lparr>session_id = sid, refresh_token = JNull, access_token = JNull,
         user_id = JNull, account_id = JNull, net = \<lparr>pending = rs, sent = rqs\<rparr>\<rparr>,
      location_id = JNum 9,
      devices = [(JNum 1, [(''id'', JNum 1)]), (JNum 2, [(''id'', JNum 2)]), (JNum 3, [(''id'', JNum 3)])],
      entry_data = [(''refresh_token'', JStr ''R'')],
      reauth_flows = 0\<rparr>"

theorem poll_keys_are_devices_minus_failures_witness:
  "truthy (session_id (api (undiscovered
      [device_list three_listed, ok_status, Http 500 None, ok_status]))) \<and>
   distinct (map (\<lambda>p. key_norm (fst p)) (devices (undiscovered
      [device_list three_listed, ok_status, Http 500 None, ok_status]))) \<and>
   discover (undiscovered [device_list three_listed, ok_status, Http 500 None, ok_status]) =
     (None, discovered_three (JStr ''S'') [GetDevices (JStr ''S'') (JNum 9)]
        [ok_status, Http 500 None, ok_status]) \<and>
   failing [JNum 1, JNum 2, JNum 3] [ok_status, Http 500 None, ok_status] = [JNum 2] \<and>
   (\<exists>data c'. async_update_data (undiscovered
        [device_list three_listed, ok_status, Http 500 None, ok_status]) = (Inr data, c') \<and>
      set (map fst data) = {JNum 1, JNum 3} \<and>
      sent (net (api c')) =
        [GetDevices (JStr ''S'') (JNum 9), GetStatus (JStr ''S'') (JNum 1),
         GetStatus (JStr ''S'') (JNum 2), GetStatus (JStr ''S'') (JNum 3)]) \<and>
   discover (three_devices [ok_status, Http 500 None, ok_status]) =
     (None, three_devices [ok_status, Http 500 None, ok_status]) \<and>
   (\<exists>data c'. async_update_data (three_devices [ok_status, Http 500 None, ok_status]) =
        (Inr data, c') \<and>
      set (map fst data) = {JNum 1, JNum 3} \<and>
      sent (net (api c')) =
        [GetStatus (JStr ''S'') (JNum 1), GetStatus (JStr ''S'') (JNum 2),
         GetStatus (JStr ''S'') (JNum 3)])"
proof -
  have f: "failing [JNum 1, JNum 2, JNum 3] [ok_status, Http 500 None, ok_status] = [JNum 2]"
    by (simp add: status_fails_def ok_status_def response_json_def parse_thermostat_def
        dict_get_def py_gt_zero_def)
  have s: "{JNum 1, JNum 2, JNum 3} - {JNum 2} = {JNum 1, JNum 3}" by auto
  have d1: "discover (undiscovered [device_list three_listed, ok_status, Http 500 None, ok_status]) =
     (None, discovered_three (JStr ''S'') [GetDevices (JStr ''S'') (JNum 9)]
        [ok_status, Http 500 None, ok_status])"
    by (simp add: discover_def get_devices_def send_def response_json_def undiscovered_def
        device_list_def init_api_def dict_get_def three_listed_def discovered_three_def)
  have d2: "discover (three_devices [ok_status, Http 500 None, ok_status]) =
     (None, three_devices [ok_status, Http 500 None, ok_status])"
    by (simp add: discover_def three_devices_def)
  from f s d1 d2
    poll_keys_are_devices_minus_failures [of
      "undiscovered [device_list three_listed, ok_status, Http 500 None, ok_status]"
      "discovered_three (JStr ''S'') [GetDevices (JStr ''S'') (JNum 9)]
        [ok_status, Http 500 None, ok_status]"]
    poll_keys_are_devices_minus_failures [of
      "three_devices [ok_status, Http 500 None, ok_status]"
      "three_devices [ok_status, Http 500 None, ok_status]"]
  show ?thesis
    by (simp add: undiscovered_def three_devices_def discovered_three_def init_api_def
        status_requests_def) blast
qed



lemma get_devices_no_session:
  "\<not> truthy (session_id a) \<Longrightarrow> get_devices loc a = (Inl SchluterAuthenticationError, a)"
  by (simp add: get_devices_def)

lemma update_body_logged_out:
  assumes "\<not> truthy (session_id (api c))"
  shows "update_body c = (Inl SchluterAuthenticationError, c)"
proof (cases "devices c = []")
  case True
  with assms show ?thesis
    by (simp add: update_body_def discover_def get_devices_no_session)
next
  case False
  with assms show ?thesis by (rule update_body_no_session)
qed

lemma cycle_relogin_any:
  assumes "\<not> truthy (session_id (api c))"
    and "map_of (entry_data c) ''refresh_token'' = Some tok"
    and "login tok (api c) = (Inr d, a2)"
  shows "async_update_data c =
    (case async_update_data (c\<lparr>api := a2\<rparr>) of
       (Inr data, c3) \<Rightarrow> (Inr data, c3)
     | (Inl e3, c3) \<Rightarrow> relogin_failed e3 c3)"
  using assms(2,3) update_body_logged_out [OF assms(1)]
  by (subst async_update_data.simps) simp





text \<open>
  C1 for any length: while the login endpoint keeps answering without a session, the cycle
  keeps logging in, whether or not devices are stored, so the number of logins in one
  cycle is set by the backend, not by the coordinator.
\<close>

lemma relogin_count_follows_backend:
  assumes "\<not> truthy (session_id (api c))"
    and "map_of (entry_data c) ''refresh_token'' = Some tok"
    and "pending (net (api c)) = replicate n login_without_session"
  shows "sent (net (api (snd (async_update_data c)))) =
    sent (net (api c)) @ replicate (Suc n) (PostLogin tok)"
  using assms
proof (induction n arbitrary: c)
  case 0
  from update_body_logged_out [OF "0.prems"(1)] "0.prems"(2,3) show ?case
    by (subst async_update_data.simps) (simp add: login_unanswered relogin_failed_api)
next
  case (Suc n)
  from Suc.prems(3) have "pending (net (api c)) = login_without_session # replicate n login_without_session"
    by simp
  from login_without_session_step [OF this, of tok] obtain d a2 where
    lg: "login tok (api c) = (Inr d, a2)" and s2: "session_id a2 = session_id (api c)"
    and n2: "net a2 = \<lparr>pending = replicate n login_without_session,
        sent = sent (net (api c)) @ [PostLogin tok]\<rparr>"
    by blast
  let ?c2 = "c\<lparr>api := a2\<rparr>"
  have "sent (net (api (snd (async_update_data ?c2)))) =
      sent (net (api ?c2)) @ replicate (Suc n) (PostLogin tok)"
    using Suc.prems s2 n2 by (intro Suc.IH) simp_all
  then have rec: "sent (net (api (snd (async_update_data ?c2)))) =
      sent (net (api c)) @ replicate (Suc (Suc n)) (PostLogin tok)"
    using n2 by simp
  have "async_update_data c =
    (case async_update_data ?c2 of
       (Inr data, c3) \<Rightarrow> (Inr data, c3)
     | (Inl e3, c3) \<Rightarrow> relogin_failed e3 c3)"
    using Suc.prems(1,2) lg by (rule cycle_relogin_any)
  then have "api (snd (async_update_data c)) = api (snd (async_update_data ?c2))"
    by (auto simp: relogin_failed_api split: prod.splits sum.splits)
  with rec show ?case by simp
qed

end
